theory Spec2Isabelle
  imports Main "HOL-Library.Word" "HOL-Library.Sublist"
begin

section \<open>The instruction-counting tool of benchmark\_profile.cu\<close>

text \<open>
  The tool is one translation unit, \<^verbatim>\<open>tools/benchmark_profile/benchmark_profile.cu\<close>,
  made of four callbacks that the NVBit host invokes: \<^verbatim>\<open>nvbit_at_init\<close>,
  \<^verbatim>\<open>nvbit_at_cuda_event\<close> (with its helper \<^verbatim>\<open>instrument_function_if_needed\<close>) and
  \<^verbatim>\<open>nvbit_at_term\<close>. Its global variables are the fields of a state record that
  every callback takes and returns. Every call of an NVBit, CUDA, pthreads or stdio
  function, and of the two printing methods of \<^verbatim>\<open>Instr\<close>, is appended, in program order,
  to the \<open>trace\<close> field of that state.
\<close>

subsection \<open>Handles, enumerations and effects\<close>

text \<open>
  \<^verbatim>\<open>CUcontext\<close>, \<^verbatim>\<open>CUfunction\<close> and \<^verbatim>\<open>Instr *\<close> are opaque handles that the tool only
  compares and passes on; they are natural numbers here.
\<close>

type_synonym CUcontext = nat
type_synonym CUfunction = nat
type_synonym Instr = nat

datatype ipoint_t = IPOINT_BEFORE | IPOINT_AFTER

text \<open>
  The callback identifiers that \<^verbatim>\<open>nvbit_at_cuda_event\<close> names; every other member of
  \<^verbatim>\<open>nvbit_api_cuda_t\<close> is \<open>API_CUDA_other\<close>.
\<close>

datatype nvbit_api_cuda_t =
    API_CUDA_cuLaunch
  | API_CUDA_cuLaunchKernel_ptsz
  | API_CUDA_cuLaunchGrid
  | API_CUDA_cuLaunchGridAsync
  | API_CUDA_cuLaunchKernel
  | API_CUDA_cuLaunchKernelEx
  | API_CUDA_cuLaunchKernelEx_ptsz
  | API_CUDA_cuLaunchCooperativeKernel
  | API_CUDA_cuLaunchCooperativeKernel_ptsz
  | API_CUDA_cuLaunchCooperativeKernelMultiDevice
  | API_CUDA_cuProfilerStart
  | API_CUDA_cuProfilerStop
  | API_CUDA_other nat

text \<open>
  The four \<^verbatim>\<open>__managed__\<close> per-kernel counters. A value of this type stands for the
  address of the variable, \<^verbatim>\<open>(uint64_t)&instr_counter\<close> and so on: four distinct objects,
  hence four distinct addresses.
\<close>

datatype counter = Instr_counter | Shfl_counter | Ballot_counter | Indirect_counter

datatype effect =
    Setenv string string int
  | Printf_pad string
  | Nvbit_get_related_functions CUcontext CUfunction
  | Nvbit_get_instrs CUcontext CUfunction
  | Nvbit_get_func_name CUcontext CUfunction
  | Printf_inspecting string nat
  | Instr_print Instr
  | Instr_printDecoded Instr
  | Nvbit_insert_call Instr string ipoint_t
  | Nvbit_add_call_arg_guard_pred_val Instr
  | Nvbit_add_call_arg_const_val32 Instr "32 word"
  | Nvbit_add_call_arg_const_val64 Instr counter
  | Nvbit_enable_instrumented CUcontext CUfunction bool
  | Pthread_mutex_lock
  | Pthread_mutex_unlock
  | CudaDeviceSynchronize
  | Printf_total string int

datatype error = Cuda_error

subsection \<open>The services of NVBit and the configuration\<close>

text \<open>
  The introspection services of NVBit (\<^verbatim>\<open>nvbit.h\<close> is not part of the tool) are
  parameters of the model: what each call returns is a field of this record, and that the
  call is made is an entry of the trace. \<^verbatim>\<open>getIdx\<close> is compared with \<^verbatim>\<open>uint32_t\<close> variables, so the
  comparison is the unsigned one on 32 bits.
\<close>

record nvbit =
  nvbit_get_related_functions :: "CUcontext \<Rightarrow> CUfunction \<Rightarrow> CUfunction list"
  nvbit_get_instrs :: "CUcontext \<Rightarrow> CUfunction \<Rightarrow> Instr list"
  nvbit_get_func_name :: "CUcontext \<Rightarrow> CUfunction \<Rightarrow> string"
  getIdx :: "Instr \<Rightarrow> 32 word"
  getOpcode :: "Instr \<Rightarrow> string"
  getOpcodeShort :: "Instr \<Rightarrow> string"
  getSass :: "Instr \<Rightarrow> string"

text \<open>
  The global control variables, which \<^verbatim>\<open>GET_VAR_INT\<close> fills from the environment in
  \<^verbatim>\<open>nvbit_at_init\<close> and nothing writes afterwards. The \<^verbatim>\<open>int\<close> ones are only tested
  against 0, 1 and 2 or converted to \<^verbatim>\<open>uint32_t\<close>.
\<close>

record config =
  instr_begin_interval :: "32 word"
  instr_end_interval :: "32 word"
  start_grid_num :: "32 word"
  end_grid_num :: "32 word"
  verbose :: int
  count_warp_level :: int
  exclude_pred_off :: int
  active_from_start :: int
  mangled :: bool

text \<open>
  The values the declarations and \<^verbatim>\<open>GET_VAR_INT\<close> give when no variable is set;
  4294967295 is \<^verbatim>\<open>UINT32_MAX\<close>.
\<close>

definition default_config :: config where
  "default_config =
     \<lparr>instr_begin_interval = 0, instr_end_interval = 4294967295,
      start_grid_num = 0, end_grid_num = 4294967295,
      verbose = 0, count_warp_level = 1, exclude_pred_off = 0,
      active_from_start = 1, mangled = True\<rparr>"

record tool_state =
  kernel_id :: "32 word"
  total_instr :: "64 word"
  total_cg :: "64 word"
  total_indirect :: "64 word"
  total_shfl :: "64 word"
  total_ballot :: "64 word"
  instr_counter :: "64 word"
  shfl_counter :: "64 word"
  ballot_counter :: "64 word"
  indirect_counter :: "64 word"
  active_region :: bool
  already_instrumented :: "CUfunction set"
  trace :: "effect list"

subsection \<open>nvbit\_at\_init\<close>

text \<open>
  The static initialisers of the globals, then the body of \<^verbatim>\<open>nvbit_at_init\<close>: the
  configuration is read (a parameter here), \<^verbatim>\<open>active_region\<close> is cleared when
  \<^verbatim>\<open>active_from_start\<close> is 0, and a line of 100 dashes is printed.
\<close>

definition nvbit_at_init :: "config \<Rightarrow> tool_state" where
  "nvbit_at_init cfg =
     \<lparr>kernel_id = 0,
      total_instr = 0, total_cg = 0, total_indirect = 0, total_shfl = 0, total_ballot = 0,
      instr_counter = 0, shfl_counter = 0, ballot_counter = 0, indirect_counter = 0,
      active_region = (if active_from_start cfg = 0 then False else True),
      already_instrumented = {},
      trace = [Setenv ''CUDA_MANAGED_FORCE_DEVICE_ALLOC'' ''1'' 1,
               Printf_pad (replicate 100 (CHR ''-''))]\<rparr>"

subsection \<open>instrument\_function\_if\_needed\<close>

text \<open>
  \<^verbatim>\<open>std::string::find\<close>: the position of the first occurrence of the pattern, or
  \<open>None\<close> for \<^verbatim>\<open>npos\<close>.
\<close>

fun string_find :: "string \<Rightarrow> string \<Rightarrow> nat option" where
  "string_find [] pat = (if pat = [] then Some 0 else None)"
| "string_find (c # s) pat =
     (if prefix pat (c # s) then Some 0 else map_option Suc (string_find s pat))"

text \<open>
  The block the source writes out four times: insert a call to \<^verbatim>\<open>count_instrs\<close> before
  the instruction, then add its three arguments.
\<close>

definition insert_count_instrs :: "config \<Rightarrow> Instr \<Rightarrow> counter \<Rightarrow> effect list" where
  "insert_count_instrs cfg i c =
     [Nvbit_insert_call i ''count_instrs'' IPOINT_BEFORE,
      (if exclude_pred_off cfg \<noteq> 0 then Nvbit_add_call_arg_guard_pred_val i
       else Nvbit_add_call_arg_const_val32 i 1),
      Nvbit_add_call_arg_const_val32 i (word_of_int (count_warp_level cfg)),
      Nvbit_add_call_arg_const_val64 i c]"

text \<open>The body of the loop over the instructions of one function.\<close>

definition instrument_instr :: "nvbit \<Rightarrow> config \<Rightarrow> Instr \<Rightarrow> effect list" where
  "instrument_instr env cfg i =
     (if getIdx env i \<ge> instr_begin_interval cfg \<and> getIdx env i < instr_end_interval cfg then
        (if verbose cfg = 1 then [Instr_print i]
         else if verbose cfg = 2 then [Instr_printDecoded i] else [])
        @ (if getOpcode env i = ''CALL.ABS'' \<and> string_find (getSass env i) ''R'' \<noteq> None
           then insert_count_instrs cfg i Indirect_counter else [])
        @ (if getOpcodeShort env i = ''SHFL''
           then insert_count_instrs cfg i Shfl_counter else [])
        @ (if getOpcode env i = ''VOTE.BALL''
           then insert_count_instrs cfg i Ballot_counter else [])
        @ insert_count_instrs cfg i Instr_counter
      else [])"

text \<open>
  What instrumenting the instructions of a newly recorded function \<open>f\<close> appends to the
  trace: its instructions are fetched, the function is announced when the tool is verbose,
  and the instructions are gone through.
\<close>

definition instrument_instrs :: "nvbit \<Rightarrow> config \<Rightarrow> CUcontext \<Rightarrow> CUfunction \<Rightarrow> effect list" where
  "instrument_instrs env cfg ctx f =
     (let instrs = nvbit_get_instrs env ctx f in
        [Nvbit_get_instrs ctx f]
        @ (if verbose cfg \<noteq> 0
           then [Nvbit_get_func_name ctx f,
                 Printf_inspecting (nvbit_get_func_name env ctx f) (length instrs)] else [])
        @ concat (map (instrument_instr env cfg) instrs))"

text \<open>
  The body of the loop over \<^verbatim>\<open>related_functions\<close>: \<^verbatim>\<open>already_instrumented.insert(f)\<close>
  fails when \<open>f\<close> is in the set, and the iteration is then skipped.
\<close>

definition instrument_function :: "nvbit \<Rightarrow> config \<Rightarrow> CUcontext \<Rightarrow> CUfunction \<Rightarrow> tool_state \<Rightarrow> tool_state" where
  "instrument_function env cfg ctx f s =
     (if f \<in> already_instrumented s then s
      else s\<lparr>already_instrumented := insert f (already_instrumented s),
             trace := trace s @ instrument_instrs env cfg ctx f\<rparr>)"

text \<open>
  The related functions are looked up first, whatever the set holds; the kernel itself is
  pushed at the back of the vector, and the loop goes through the vector.
\<close>

definition instrument_function_if_needed :: "nvbit \<Rightarrow> config \<Rightarrow> CUcontext \<Rightarrow> CUfunction \<Rightarrow> tool_state \<Rightarrow> tool_state" where
  "instrument_function_if_needed env cfg ctx func s =
     (let related_functions = nvbit_get_related_functions env ctx func @ [func];
          s0 = s\<lparr>trace := trace s @ [Nvbit_get_related_functions ctx func]\<rparr>
      in fold (instrument_function env cfg ctx) related_functions s0)"

subsection \<open>nvbit\_at\_cuda\_event\<close>

text \<open>
  \<open>func\<close> is the field \<^verbatim>\<open>f\<close> of the launch parameters, read only for the launch
  callbacks. \<open>sync_ok\<close> is what \<^verbatim>\<open>CUDA_SAFECALL\<close> sees after
  \<^verbatim>\<open>cudaDeviceSynchronize()\<close>: on an error the process is aborted, which is the result
  \<open>Inl Cuda_error\<close>. The arguments \<^verbatim>\<open>name\<close> and \<^verbatim>\<open>pStatus\<close> are not used by the body.
  The model is the callback as one host thread runs it: locking and unlocking the mutex
  are recorded in the trace, and a thread that waits for the mutex is not represented.
\<close>

definition nvbit_at_cuda_event ::
  "nvbit \<Rightarrow> config \<Rightarrow> bool \<Rightarrow> CUcontext \<Rightarrow> int \<Rightarrow> nvbit_api_cuda_t \<Rightarrow> CUfunction
     \<Rightarrow> tool_state \<Rightarrow> error + tool_state" where
  "nvbit_at_cuda_event env cfg sync_ok ctx is_exit cbid func s =
     (if cbid = API_CUDA_cuLaunch \<or> cbid = API_CUDA_cuLaunchKernel_ptsz \<or>
         cbid = API_CUDA_cuLaunchGrid \<or> cbid = API_CUDA_cuLaunchGridAsync \<or>
         cbid = API_CUDA_cuLaunchKernel \<or>
         cbid = API_CUDA_cuLaunchKernelEx \<or>
         cbid = API_CUDA_cuLaunchKernelEx_ptsz then
        (if is_exit = 0 then
           (let s1 = s\<lparr>trace := trace s @ [Pthread_mutex_lock]\<rparr>;
                s2 = instrument_function_if_needed env cfg ctx func s1;
                s3 = (if active_from_start cfg \<noteq> 0 then
                        (if kernel_id s2 \<ge> start_grid_num cfg \<and> kernel_id s2 < end_grid_num cfg
                         then s2\<lparr>active_region := True\<rparr>
                         else s2\<lparr>active_region := False\<rparr>)
                      else s2);
                s4 = (if active_region s3
                      then s3\<lparr>trace := trace s3 @ [Nvbit_enable_instrumented ctx func True]\<rparr>
                      else s3\<lparr>trace := trace s3 @ [Nvbit_enable_instrumented ctx func False]\<rparr>)
            in Inr (s4\<lparr>instr_counter := 0, indirect_counter := 0,
                       shfl_counter := 0, ballot_counter := 0\<rparr>))
         else
           (if \<not> sync_ok then Inl Cuda_error
            else Inr (s\<lparr>total_instr := total_instr s + instr_counter s,
                        total_indirect := total_indirect s + indirect_counter s,
                        total_shfl := total_shfl s + shfl_counter s,
                        total_ballot := total_ballot s + ballot_counter s,
                        trace := trace s @ [CudaDeviceSynchronize, Pthread_mutex_unlock]\<rparr>)))
      else if cbid = API_CUDA_cuLaunchCooperativeKernel \<or>
              cbid = API_CUDA_cuLaunchCooperativeKernel_ptsz \<or>
              cbid = API_CUDA_cuLaunchCooperativeKernelMultiDevice then
        (if is_exit \<noteq> 0 then Inr (s\<lparr>total_cg := total_cg s + 1\<rparr>) else Inr s)
      else if cbid = API_CUDA_cuProfilerStart \<and> is_exit \<noteq> 0 then
        (if active_from_start cfg = 0 then Inr (s\<lparr>active_region := True\<rparr>) else Inr s)
      else if cbid = API_CUDA_cuProfilerStop \<and> is_exit \<noteq> 0 then
        (if active_from_start cfg = 0 then Inr (s\<lparr>active_region := False\<rparr>) else Inr s)
      else Inr s)"

subsection \<open>nvbit\_at\_term\<close>

text \<open>
  The five lines of the report, in the order they are printed. \<^verbatim>\<open>%ld\<close> prints the
  64-bit total as a signed number.
\<close>

definition nvbit_at_term :: "config \<Rightarrow> tool_state \<Rightarrow> effect list" where
  "nvbit_at_term cfg s =
     [Printf_total ''Total indirect function calls: '' (sint (total_indirect s)),
      Printf_total ''Total cooperative group kernel launches: '' (sint (total_cg s)),
      (if count_warp_level cfg = 1
       then Printf_total ''Total instructions (warp level): '' (sint (total_instr s))
       else Printf_total ''Total instructions (thread level): '' (sint (total_instr s))),
      Printf_total ''Total __shfl_sync() calls: '' (sint (total_shfl s)),
      Printf_total ''Total __ballot_sync() calls: '' (sint (total_ballot s))]"

subsection \<open>Executions\<close>

text \<open>
  What happens to the state between \<^verbatim>\<open>nvbit_at_init\<close> and \<^verbatim>\<open>nvbit_at_term\<close>: the host
  delivers a callback, or the probes running on the device add to the four managed
  counters. An execution is a list of such steps and stops at the first fatal error.
\<close>

datatype step =
    Cuda_event bool CUcontext int nvbit_api_cuda_t CUfunction
  | Device_probes "64 word" "64 word" "64 word" "64 word"

fun do_step :: "nvbit \<Rightarrow> config \<Rightarrow> step \<Rightarrow> tool_state \<Rightarrow> error + tool_state" where
  "do_step env cfg (Cuda_event sync_ok ctx is_exit cbid func) s =
     nvbit_at_cuda_event env cfg sync_ok ctx is_exit cbid func s"
| "do_step env cfg (Device_probes a b c d) s =
     Inr (s\<lparr>instr_counter := instr_counter s + a, indirect_counter := indirect_counter s + b,
            shfl_counter := shfl_counter s + c, ballot_counter := ballot_counter s + d\<rparr>)"

fun run :: "nvbit \<Rightarrow> config \<Rightarrow> step list \<Rightarrow> tool_state \<Rightarrow> error + tool_state" where
  "run env cfg [] s = Inr s"
| "run env cfg (e # es) s =
     (case do_step env cfg e s of Inl err \<Rightarrow> Inl err | Inr s' \<Rightarrow> run env cfg es s')"

section \<open>Vocabulary of the properties\<close>

subsection \<open>Launch kinds and steps\<close>

definition is_cooperative_launch :: "nvbit_api_cuda_t \<Rightarrow> bool" where
  "is_cooperative_launch cbid \<longleftrightarrow>
     cbid = API_CUDA_cuLaunchCooperativeKernel \<or>
     cbid = API_CUDA_cuLaunchCooperativeKernel_ptsz \<or>
     cbid = API_CUDA_cuLaunchCooperativeKernelMultiDevice"

fun cooperative_or_device :: "step \<Rightarrow> bool" where
  "cooperative_or_device (Cuda_event sync_ok ctx is_exit cbid func) = is_cooperative_launch cbid"
| "cooperative_or_device (Device_probes a b c d) = True"

fun exit_event :: "step \<Rightarrow> bool" where
  "exit_event (Cuda_event sync_ok ctx is_exit cbid func) = (is_exit \<noteq> 0)"
| "exit_event (Device_probes a b c d) = False"

fun profiler_signal :: "step \<Rightarrow> bool" where
  "profiler_signal (Cuda_event sync_ok ctx is_exit cbid func) =
     (cbid = API_CUDA_cuProfilerStart \<or> cbid = API_CUDA_cuProfilerStop)"
| "profiler_signal (Device_probes a b c d) = False"

text \<open>The four instruction totals: generic, indirect, shuffle, ballot.\<close>

definition totals :: "tool_state \<Rightarrow> 64 word \<times> 64 word \<times> 64 word \<times> 64 word" where
  "totals s = (total_instr s, total_indirect s, total_shfl s, total_ballot s)"

text \<open>The flags of the \<^verbatim>\<open>nvbit_enable_instrumented\<close> calls of a trace, one per launch entry.\<close>

fun enable_decisions :: "effect list \<Rightarrow> bool list" where
  "enable_decisions [] = []"
| "enable_decisions (Nvbit_enable_instrumented ctx func flag # es) = flag # enable_decisions es"
| "enable_decisions (e # es) = enable_decisions es"

subsection \<open>Repeated instrumentation\<close>

text \<open>
  The functions of a list that are not in \<open>A\<close>, each at its first occurrence: the ones
  a pass over the list records.
\<close>

fun new_functions :: "CUfunction set \<Rightarrow> CUfunction list \<Rightarrow> CUfunction list" where
  "new_functions A [] = []"
| "new_functions A (f # fs) =
     (if f \<in> A then new_functions A fs else f # new_functions (insert f A) fs)"

text \<open>
  Every function that a sequence of invocations of \<^verbatim>\<open>instrument_function_if_needed\<close>
  meets, directly or as a related function, in the order it meets them.
\<close>

definition visited :: "nvbit \<Rightarrow> CUcontext \<Rightarrow> CUfunction list \<Rightarrow> CUfunction list" where
  "visited env ctx funcs =
     concat (map (\<lambda>func. nvbit_get_related_functions env ctx func @ [func]) funcs)"

definition instrument_all :: "nvbit \<Rightarrow> config \<Rightarrow> CUcontext \<Rightarrow> CUfunction list \<Rightarrow> tool_state \<Rightarrow> tool_state" where
  "instrument_all env cfg ctx funcs s = fold (instrument_function_if_needed env cfg ctx) funcs s"

text \<open>What one invocation of the instrumentor appends to the trace.\<close>

definition requested :: "nvbit \<Rightarrow> config \<Rightarrow> CUcontext \<Rightarrow> CUfunction \<Rightarrow> tool_state \<Rightarrow> effect list" where
  "requested env cfg ctx func s =
     drop (length (trace s)) (trace (instrument_function_if_needed env cfg ctx func s))"

text \<open>
  The related-function list is transitive: the related functions of a related function
  of \<open>f\<close> are related functions of \<open>f\<close>. A set of functions is closed when it holds the
  related functions of each of its members.
\<close>

definition transitive_related :: "nvbit \<Rightarrow> CUcontext \<Rightarrow> bool" where
  "transitive_related env ctx \<longleftrightarrow>
     (\<forall>f. \<forall>g\<in>set (nvbit_get_related_functions env ctx f).
        set (nvbit_get_related_functions env ctx g) \<subseteq> set (nvbit_get_related_functions env ctx f))"

definition related_closed :: "nvbit \<Rightarrow> CUcontext \<Rightarrow> CUfunction set \<Rightarrow> bool" where
  "related_closed env ctx A \<longleftrightarrow> (\<forall>g\<in>A. set (nvbit_get_related_functions env ctx g) \<subseteq> A)"

text \<open>The instruction that a code-patching request is about.\<close>

fun effect_instr :: "effect \<Rightarrow> Instr option" where
  "effect_instr (Nvbit_insert_call i n ip) = Some i"
| "effect_instr (Nvbit_add_call_arg_guard_pred_val i) = Some i"
| "effect_instr (Nvbit_add_call_arg_const_val32 i w) = Some i"
| "effect_instr (Nvbit_add_call_arg_const_val64 i c) = Some i"
| "effect_instr _ = None"

definition calls_for :: "Instr \<Rightarrow> effect list \<Rightarrow> effect list" where
  "calls_for i es = filter (\<lambda>e. effect_instr e = Some i) es"

text \<open>All the code-patching requests of a trace.\<close>

definition patch_requests :: "effect list \<Rightarrow> effect list" where
  "patch_requests es = filter (\<lambda>e. effect_instr e \<noteq> None) es"

text \<open>The instructions before which a trace inserts a call, one entry per inserted call.\<close>

fun inserted_at :: "effect \<Rightarrow> Instr list" where
  "inserted_at (Nvbit_insert_call i n ip) = [i]"
| "inserted_at _ = []"

definition probed :: "effect list \<Rightarrow> Instr list" where
  "probed es = concat (map inserted_at es)"

subsection \<open>The classifier and the probes, in the words of the specification\<close>

definition eligible :: "nvbit \<Rightarrow> config \<Rightarrow> Instr \<Rightarrow> bool" where
  "eligible env cfg i \<longleftrightarrow>
     instr_begin_interval cfg \<le> getIdx env i \<and> getIdx env i < instr_end_interval cfg"

text \<open>
  The counters of the categories an instruction matches: INDIRECT when the opcode is
  exactly \<^verbatim>\<open>CALL.ABS\<close> and the operand text contains an \<^verbatim>\<open>R\<close>, SHUFFLE when the short
  opcode is exactly \<^verbatim>\<open>SHFL\<close>, BALLOT when the opcode is exactly \<^verbatim>\<open>VOTE.BALL\<close>.
\<close>

definition categories :: "nvbit \<Rightarrow> Instr \<Rightarrow> counter list" where
  "categories env i =
     (if getOpcode env i = ''CALL.ABS'' \<and> CHR ''R'' \<in> set (getSass env i)
      then [Indirect_counter] else []) @
     (if getOpcodeShort env i = ''SHFL'' then [Shfl_counter] else []) @
     (if getOpcode env i = ''VOTE.BALL'' then [Ballot_counter] else [])"

text \<open>
  A probe is one inserted call together with the arguments added to it: the
  \<^verbatim>\<open>nvbit_add_call_arg_*\<close> requests for the same instruction that follow the insertion,
  up to the next request of another kind.
\<close>

record probe =
  probe_instr :: Instr
  probe_func :: string
  probe_point :: ipoint_t
  probe_args :: "effect list"

fun call_arg_of :: "Instr \<Rightarrow> effect \<Rightarrow> bool" where
  "call_arg_of i (Nvbit_add_call_arg_guard_pred_val j) = (i = j)"
| "call_arg_of i (Nvbit_add_call_arg_const_val32 j w) = (i = j)"
| "call_arg_of i (Nvbit_add_call_arg_const_val64 j c) = (i = j)"
| "call_arg_of i _ = False"

fun probes_of :: "effect list \<Rightarrow> probe list" where
  "probes_of [] = []"
| "probes_of (Nvbit_insert_call i n ip # es) =
     \<lparr>probe_instr = i, probe_func = n, probe_point = ip,
      probe_args = takeWhile (call_arg_of i) es\<rparr> # probes_of es"
| "probes_of (e # es) = probes_of es"

text \<open>The probes of a trace that are placed at instruction \<open>i\<close>.\<close>

definition probes_for :: "Instr \<Rightarrow> effect list \<Rightarrow> probe list" where
  "probes_for i es = filter (\<lambda>p. probe_instr p = i) (probes_of es)"

text \<open>
  A list of requests that does not begin with an argument for a call inserted earlier.
\<close>

definition no_leading_argument :: "effect list \<Rightarrow> bool" where
  "no_leading_argument es \<longleftrightarrow> (case es of [] \<Rightarrow> True | e # _ \<Rightarrow> \<forall>i. \<not> call_arg_of i e)"

text \<open>
  The probe that the specification describes for counter \<open>c\<close>: placed before the
  instruction, with the guard first (the runtime predicate when \<^verbatim>\<open>exclude_pred_off\<close> is
  set, the constant 1 otherwise), then the \<^verbatim>\<open>count_warp_level\<close> flag, then the address of
  the counter.
\<close>

definition count_instrs_probe :: "config \<Rightarrow> Instr \<Rightarrow> counter \<Rightarrow> probe" where
  "count_instrs_probe cfg i c =
     \<lparr>probe_instr = i, probe_func = ''count_instrs'', probe_point = IPOINT_BEFORE,
      probe_args =
        [if exclude_pred_off cfg \<noteq> 0 then Nvbit_add_call_arg_guard_pred_val i
         else Nvbit_add_call_arg_const_val32 i 1,
         Nvbit_add_call_arg_const_val32 i (word_of_int (count_warp_level cfg)),
         Nvbit_add_call_arg_const_val64 i c]\<rparr>"

text \<open>
  The probes that the specification asks for at instruction \<open>i\<close>: none when it is not
  eligible, otherwise one per matched category and the generic one.
\<close>

definition instr_probes :: "nvbit \<Rightarrow> config \<Rightarrow> Instr \<Rightarrow> probe list" where
  "instr_probes env cfg i =
     (if eligible env cfg i
      then map (count_instrs_probe cfg i) (categories env i @ [Instr_counter]) else [])"

subsection \<open>A small program\<close>

text \<open>
  Three functions: kernel 1 calls device function 2, which calls device function 3, so
  the related functions of 1 are 2 and 3. Instruction 10 is a register-indirect call,
  11 a shuffle, 20 a ballot, 30 a call to an absolute address.
\<close>

definition demo_nvbit :: nvbit where
  "demo_nvbit =
     \<lparr>nvbit_get_related_functions = (\<lambda>ctx f. if f = 1 then [2, 3] else if f = 2 then [3] else []),
      nvbit_get_instrs =
        (\<lambda>ctx f. if f = 1 then [10, 11] else if f = 2 then [20] else if f = 3 then [30] else []),
      nvbit_get_func_name = (\<lambda>ctx f. if f = 1 then ''kernel'' else ''device_function''),
      getIdx = (\<lambda>i. if i = 11 then 1 else 0),
      getOpcode = (\<lambda>i. if i = 10 then ''CALL.ABS'' else if i = 20 then ''VOTE.BALL''
                        else if i = 30 then ''CALL.ABS'' else ''SHFL.IDX''),
      getOpcodeShort = (\<lambda>i. if i = 10 then ''CALL'' else if i = 20 then ''VOTE''
                        else if i = 30 then ''CALL'' else ''SHFL''),
      getSass = (\<lambda>i. if i = 10 then ''CALL.ABS R20 ;'' else if i = 20 then ''VOTE.BALL R0, PT ;''
                        else if i = 30 then ''CALL.ABS 0x0 ;''
                        else ''SHFL.IDX PT, R3, R2, 0x0, 0x1f ;'')\<rparr>"

text \<open>The state after the tool is loaded and kernel 1 has been instrumented once.\<close>

definition demo_state :: tool_state where
  "demo_state =
     instrument_function_if_needed demo_nvbit default_config 0 1 (nvbit_at_init default_config)"

section \<open>What instrumentation leaves alone\<close>

text \<open>
  \<^verbatim>\<open>instrument_function_if_needed\<close> writes the set of instrumented functions and the
  trace, nothing else.
\<close>

lemma instrument_function_frame:
  "\<exists>A t. instrument_function env cfg ctx f s = s\<lparr>already_instrumented := A, trace := t\<rparr>"
proof (cases "f \<in> already_instrumented s")
  case True
  have "s = s\<lparr>already_instrumented := already_instrumented s, trace := trace s\<rparr>" by simp
  with True show ?thesis unfolding instrument_function_def by (metis (full_types))
next
  case False
  then show ?thesis unfolding instrument_function_def by auto
qed

lemma fold_instrument_function_frame:
  "\<exists>A t. fold (instrument_function env cfg ctx) fs s = s\<lparr>already_instrumented := A, trace := t\<rparr>"
proof (induction fs arbitrary: s)
  case Nil
  have "s = s\<lparr>already_instrumented := already_instrumented s, trace := trace s\<rparr>" by simp
  then show ?case by (metis fold_simps(1))
next
  case (Cons f fs)
  obtain A t where 1: "instrument_function env cfg ctx f s = s\<lparr>already_instrumented := A, trace := t\<rparr>"
    using instrument_function_frame by blast
  obtain A' t' where 2:
    "fold (instrument_function env cfg ctx) fs (s\<lparr>already_instrumented := A, trace := t\<rparr>)
      = s\<lparr>already_instrumented := A, trace := t\<rparr>\<lparr>already_instrumented := A', trace := t'\<rparr>"
    using Cons.IH by blast
  show ?case using 1 2 by (intro exI[of _ A'] exI[of _ t']) simp
qed

lemma instrument_function_if_needed_frame:
  "\<exists>A t. instrument_function_if_needed env cfg ctx func s = s\<lparr>already_instrumented := A, trace := t\<rparr>"
proof -
  obtain A t where
    "fold (instrument_function env cfg ctx) (nvbit_get_related_functions env ctx func @ [func])
       (s\<lparr>trace := trace s @ [Nvbit_get_related_functions ctx func]\<rparr>) =
     s\<lparr>trace := trace s @ [Nvbit_get_related_functions ctx func]\<rparr>\<lparr>already_instrumented := A, trace := t\<rparr>"
    using fold_instrument_function_frame by blast
  then have "instrument_function_if_needed env cfg ctx func s = s\<lparr>already_instrumented := A, trace := t\<rparr>"
    by (simp add: instrument_function_if_needed_def Let_def)
  then show ?thesis by blast
qed

lemma kernel_id_instrument [simp]:
  "kernel_id (instrument_function_if_needed env cfg ctx func s) = kernel_id s"
  using instrument_function_if_needed_frame [of env cfg ctx func s] by auto

section \<open>The pass over the related functions\<close>

lemma new_functions_set: "set (new_functions A fs) = set fs - A"
  by (induction fs arbitrary: A) auto

lemma new_functions_distinct: "distinct (new_functions A fs)"
  by (induction fs arbitrary: A) (auto simp: new_functions_set)

lemma new_functions_recorded: "set fs \<subseteq> A \<Longrightarrow> new_functions A fs = []"
  by (induction fs) auto

lemma fold_instrument_function_set:
  "already_instrumented (fold (instrument_function env cfg ctx) fs s) = already_instrumented s \<union> set fs"
  by (induction fs arbitrary: s) (auto simp: instrument_function_def)

lemma fold_instrument_function_trace:
  "trace (fold (instrument_function env cfg ctx) fs s) =
     trace s @ concat (map (instrument_instrs env cfg ctx) (new_functions (already_instrumented s) fs))"
  by (induction fs arbitrary: s) (auto simp: instrument_function_def)

lemma invocation_set:
  "already_instrumented (instrument_function_if_needed env cfg ctx func s) =
     already_instrumented s \<union> set (nvbit_get_related_functions env ctx func) \<union> {func}"
  unfolding instrument_function_if_needed_def Let_def fold_instrument_function_set by auto

lemma invocation_trace:
  "trace (instrument_function_if_needed env cfg ctx func s) =
     trace s @ Nvbit_get_related_functions ctx func #
       concat (map (instrument_instrs env cfg ctx)
         (new_functions (already_instrumented s) (nvbit_get_related_functions env ctx func @ [func])))"
  unfolding instrument_function_if_needed_def Let_def fold_instrument_function_trace by simp

lemma requested_eq:
  "requested env cfg ctx func s =
     Nvbit_get_related_functions ctx func #
       concat (map (instrument_instrs env cfg ctx)
         (new_functions (already_instrumented s) (nvbit_get_related_functions env ctx func @ [func])))"
  by (simp add: requested_def invocation_trace)

lemma newly_recorded:
  "set (new_functions (already_instrumented s) (nvbit_get_related_functions env ctx func @ [func])) =
     already_instrumented (instrument_function_if_needed env cfg ctx func s) - already_instrumented s"
  by (auto simp: new_functions_set invocation_set)

lemma invocation_eq:
  "instrument_function_if_needed env cfg ctx func s =
     s\<lparr>already_instrumented :=
         already_instrumented s \<union> set (nvbit_get_related_functions env ctx func) \<union> {func},
       trace := trace s @ requested env cfg ctx func s\<rparr>"
proof -
  obtain A t where *:
    "instrument_function_if_needed env cfg ctx func s = s\<lparr>already_instrumented := A, trace := t\<rparr>"
    using instrument_function_if_needed_frame by blast
  have "A = already_instrumented s \<union> set (nvbit_get_related_functions env ctx func) \<union> {func}"
    using invocation_set [of env cfg ctx func s] unfolding * by simp
  moreover have "t = trace s @ requested env cfg ctx func s"
    using invocation_trace [of env cfg ctx func s] unfolding * requested_eq by simp
  ultimately show ?thesis using * by simp
qed

lemma instrument_all_Cons:
  "instrument_all env cfg ctx (func # funcs) s =
     instrument_all env cfg ctx funcs (instrument_function_if_needed env cfg ctx func s)"
  by (simp add: instrument_all_def)

lemma instrument_all_set:
  "already_instrumented (instrument_all env cfg ctx funcs s) =
     already_instrumented s \<union> set (visited env ctx funcs)"
proof (induction funcs arbitrary: s)
  case Nil
  then show ?case by (simp add: instrument_all_def visited_def)
next
  case (Cons func funcs)
  show ?case
    unfolding instrument_all_Cons Cons.IH invocation_set
    by (auto simp: visited_def)
qed

section \<open>Closed sets of functions\<close>

lemma related_closed_invocation:
  assumes "transitive_related env ctx" "related_closed env ctx (already_instrumented s)"
  shows "related_closed env ctx (already_instrumented (instrument_function_if_needed env cfg ctx func s))"
  using assms unfolding related_closed_def transitive_related_def invocation_set
  by blast

lemma related_closed_instrument_all:
  assumes "transitive_related env ctx"
  shows "related_closed env ctx (already_instrumented s) \<Longrightarrow>
     related_closed env ctx (already_instrumented (instrument_all env cfg ctx funcs s))"
proof (induction funcs arbitrary: s)
  case Nil
  then show ?case by (simp add: instrument_all_def)
next
  case (Cons func funcs)
  then show ?case
    unfolding instrument_all_Cons
    using related_closed_invocation [OF assms] by blast
qed

lemma recorded_and_closed:
  assumes "func \<in> already_instrumented s"
    and "set (nvbit_get_related_functions env ctx func) \<subseteq> already_instrumented s"
  shows "instrument_function_if_needed env cfg ctx func s =
           s\<lparr>trace := trace s @ [Nvbit_get_related_functions ctx func]\<rparr>"
proof -
  have "new_functions (already_instrumented s) (nvbit_get_related_functions env ctx func @ [func]) = []"
    using assms by (intro new_functions_recorded) auto
  then have "requested env cfg ctx func s = [Nvbit_get_related_functions ctx func]"
    by (simp add: requested_eq)
  moreover have
    "already_instrumented s \<union> set (nvbit_get_related_functions env ctx func) \<union> {func} =
     already_instrumented s"
    using assms by auto
  ultimately show ?thesis
    using invocation_eq [of env cfg ctx func s] by simp
qed

section \<open>Requests and the instructions they are about\<close>

lemma filter_concat_distinct:
  "distinct xs \<Longrightarrow> \<forall>x\<in>set xs. x \<noteq> a \<longrightarrow> filter P (F x) = [] \<Longrightarrow>
     filter P (concat (map F xs)) = (if a \<in> set xs then filter P (F a) else [])"
proof (induction xs)
  case Nil
  then show ?case by simp
next
  case (Cons x xs)
  then show ?case by (cases "x = a") auto
qed

lemma effect_instr_insert_count_instrs:
  "e \<in> set (insert_count_instrs cfg i c) \<Longrightarrow> effect_instr e = Some i"
  by (auto simp: insert_count_instrs_def)

lemma effect_instr_instrument_instr:
  "e \<in> set (instrument_instr env cfg i) \<Longrightarrow> effect_instr e = Some j \<Longrightarrow> j = i"
  by (auto simp: instrument_instr_def split: if_splits dest: effect_instr_insert_count_instrs)

lemma effect_instr_instrument_instrs:
  "e \<in> set (instrument_instrs env cfg ctx g) \<Longrightarrow> effect_instr e = Some j \<Longrightarrow>
     j \<in> set (nvbit_get_instrs env ctx g)"
  by (auto simp: instrument_instrs_def Let_def split: if_splits dest: effect_instr_instrument_instr)

lemma calls_for_other_function:
  "i \<notin> set (nvbit_get_instrs env ctx g) \<Longrightarrow> calls_for i (instrument_instrs env cfg ctx g) = []"
  unfolding calls_for_def by (auto simp: filter_empty_conv dest: effect_instr_instrument_instrs)

lemma calls_for_append [simp]: "calls_for i (xs @ ys) = calls_for i xs @ calls_for i ys"
  by (simp add: calls_for_def)

lemma calls_for_invocation:
  assumes "\<forall>g. g \<noteq> f \<longrightarrow> i \<notin> set (nvbit_get_instrs env ctx g)"
  shows "calls_for i (trace (instrument_function_if_needed env cfg ctx func s)) =
           calls_for i (trace s) @
           (if f \<in> set (nvbit_get_related_functions env ctx func @ [func]) \<and>
               f \<notin> already_instrumented s
            then calls_for i (instrument_instrs env cfg ctx f) else [])"
proof -
  have "\<forall>g\<in>set (new_functions (already_instrumented s)
                  (nvbit_get_related_functions env ctx func @ [func])).
          g \<noteq> f \<longrightarrow> filter (\<lambda>e. effect_instr e = Some i) (instrument_instrs env cfg ctx g) = []"
    using assms calls_for_other_function [of i env ctx _ cfg] by (simp add: calls_for_def)
  from filter_concat_distinct [OF new_functions_distinct this]
  have "calls_for i (concat (map (instrument_instrs env cfg ctx)
          (new_functions (already_instrumented s) (nvbit_get_related_functions env ctx func @ [func]))))
        = (if f \<in> set (new_functions (already_instrumented s)
                  (nvbit_get_related_functions env ctx func @ [func]))
           then calls_for i (instrument_instrs env cfg ctx f) else [])"
    by (simp add: calls_for_def)
  moreover have "calls_for i [Nvbit_get_related_functions ctx func] = []"
    by (simp add: calls_for_def)
  ultimately show ?thesis
    unfolding invocation_trace
    using calls_for_append [of i "trace s @ [Nvbit_get_related_functions ctx func]"]
    by (simp add: new_functions_set)
qed

lemma calls_for_instrument_all:
  assumes "\<forall>g. g \<noteq> f \<longrightarrow> i \<notin> set (nvbit_get_instrs env ctx g)"
  shows "calls_for i (trace (instrument_all env cfg ctx funcs s)) =
           calls_for i (trace s) @
           (if f \<in> set (visited env ctx funcs) \<and> f \<notin> already_instrumented s
            then calls_for i (instrument_instrs env cfg ctx f) else [])"
proof (induction funcs arbitrary: s)
  case Nil
  then show ?case by (simp add: instrument_all_def visited_def)
next
  case (Cons func funcs)
  have v: "set (visited env ctx (func # funcs)) =
      set (nvbit_get_related_functions env ctx func) \<union> {func} \<union> set (visited env ctx funcs)"
    by (auto simp: visited_def)
  show ?case
    unfolding instrument_all_Cons Cons.IH calls_for_invocation [OF assms] invocation_set v
    by auto
qed

section \<open>Eligibility and classification\<close>

lemma string_find_char: "string_find s [x] \<noteq> None \<longleftrightarrow> x \<in> set s"
  by (induction s) auto

lemma instrument_instr_not_eligible:
  "\<not> eligible env cfg i \<Longrightarrow> instrument_instr env cfg i = []"
  by (simp only: instrument_instr_def eligible_def if_False)

lemma empty_interval_not_eligible:
  "instr_end_interval cfg \<le> instr_begin_interval cfg \<Longrightarrow> \<not> eligible env cfg i"
  by (auto simp: eligible_def)

lemma probed_Nil [simp]: "probed [] = []"
  by (simp add: probed_def)

lemma probed_append [simp]: "probed (xs @ ys) = probed xs @ probed ys"
  by (simp add: probed_def)

lemma probed_concat: "probed (concat xss) = concat (map probed xss)"
  by (induction xss) simp_all

lemma probed_insert_count_instrs [simp]: "probed (insert_count_instrs cfg i c) = [i]"
  by (simp add: probed_def insert_count_instrs_def)

lemma probed_other [simp]:
  "probed [Instr_print i] = []" "probed [Instr_printDecoded i] = []"
  "probed [Printf_inspecting n k] = []" "probed [Nvbit_get_func_name ctx f] = []"
  "probed [Nvbit_get_instrs ctx f] = []" "probed [Nvbit_get_related_functions ctx f] = []"
  by (simp_all add: probed_def)

lemma probed_Cons_lookup [simp]:
  "probed (Nvbit_get_related_functions ctx f # es) = probed es"
  "probed (Nvbit_get_instrs ctx f # es) = probed es"
  "probed (Nvbit_get_func_name ctx f # es) = probed es"
  "probed (Printf_inspecting n k # es) = probed es"
  by (simp_all add: probed_def)

lemma probed_instrument_instr:
  "set (probed (instrument_instr env cfg i)) = (if eligible env cfg i then {i} else {})"
proof (cases "eligible env cfg i")
  case True
  then have "instr_begin_interval cfg \<le> getIdx env i" "getIdx env i < instr_end_interval cfg"
    by (simp_all add: eligible_def)
  then have "set (probed (instrument_instr env cfg i)) = {i}"
    by (simp add: instrument_instr_def)
  with True show ?thesis by simp
next
  case False
  then show ?thesis by (simp add: instrument_instr_not_eligible)
qed

lemma probed_instrument_instrs:
  "set (probed (instrument_instrs env cfg ctx f)) =
     {i \<in> set (nvbit_get_instrs env ctx f). eligible env cfg i}"
proof -
  have "set (probed (concat (map (instrument_instr env cfg) js))) =
          {i \<in> set js. eligible env cfg i}" for js
    by (induction js) (auto simp: probed_instrument_instr)
  then show ?thesis
    by (simp add: instrument_instrs_def Let_def)
qed

lemma probed_requested:
  "set (probed (requested env cfg ctx func s)) =
     (\<Union>g\<in>already_instrumented (instrument_function_if_needed env cfg ctx func s)
           - already_instrumented s.
        {j \<in> set (nvbit_get_instrs env ctx g). eligible env cfg j})"
proof -
  have "set (probed (concat (map (instrument_instrs env cfg ctx) gs))) =
          (\<Union>g\<in>set gs. {j \<in> set (nvbit_get_instrs env ctx g). eligible env cfg j})" for gs
    by (induction gs) (simp_all add: probed_instrument_instrs)
  then show ?thesis
    unfolding requested_eq newly_recorded [symmetric] by simp
qed

lemma patch_requests_append [simp]:
  "patch_requests (xs @ ys) = patch_requests xs @ patch_requests ys"
  by (simp add: patch_requests_def)

lemma patch_requests_empty_interval:
  "instr_end_interval cfg \<le> instr_begin_interval cfg \<Longrightarrow>
     patch_requests (instrument_instrs env cfg ctx f) = []"
  by (simp add: patch_requests_def instrument_instrs_def Let_def instrument_instr_not_eligible
      empty_interval_not_eligible)

lemma patch_requests_concat_empty_interval:
  "instr_end_interval cfg \<le> instr_begin_interval cfg \<Longrightarrow>
     patch_requests (concat (map (instrument_instrs env cfg ctx) gs)) = []"
  by (induction gs) (simp_all add: patch_requests_empty_interval, simp add: patch_requests_def)

lemma patch_requests_requested_empty_interval:
  "instr_end_interval cfg \<le> instr_begin_interval cfg \<Longrightarrow>
     patch_requests (requested env cfg ctx func s) = []"
proof -
  assume "instr_end_interval cfg \<le> instr_begin_interval cfg"
  from patch_requests_concat_empty_interval [OF this]
  have "patch_requests ([Nvbit_get_related_functions ctx func] @
          concat (map (instrument_instrs env cfg ctx)
            (new_functions (already_instrumented s)
               (nvbit_get_related_functions env ctx func @ [func])))) = []"
    unfolding patch_requests_append by (simp add: patch_requests_def)
  then show ?thesis by (simp add: requested_eq)
qed

section \<open>Reading requests as probes\<close>

lemma takeWhile_no_leading_argument:
  "no_leading_argument ys \<Longrightarrow>
     takeWhile (call_arg_of i) (xs @ ys) = takeWhile (call_arg_of i) xs"
  by (induction xs) (auto simp: no_leading_argument_def split: list.splits)

lemma probes_of_append:
  "no_leading_argument ys \<Longrightarrow> probes_of (xs @ ys) = probes_of xs @ probes_of ys"
  by (induction xs rule: probes_of.induct) (simp_all add: takeWhile_no_leading_argument)

lemma no_leading_argument_Nil [simp]: "no_leading_argument []"
  by (simp add: no_leading_argument_def)

lemma no_leading_argument_append:
  "no_leading_argument xs \<Longrightarrow> no_leading_argument ys \<Longrightarrow> no_leading_argument (xs @ ys)"
  by (cases xs) (simp_all add: no_leading_argument_def)

lemma no_leading_argument_concat:
  "\<forall>xs\<in>set xss. no_leading_argument xs \<Longrightarrow> no_leading_argument (concat xss)"
  by (induction xss) (simp_all add: no_leading_argument_append)

lemma no_leading_argument_instrument_instr: "no_leading_argument (instrument_instr env cfg i)"
  by (simp add: instrument_instr_def insert_count_instrs_def no_leading_argument_def)

lemma no_leading_argument_instrument_instrs: "no_leading_argument (instrument_instrs env cfg ctx f)"
  by (simp add: instrument_instrs_def Let_def no_leading_argument_def)

lemma probes_of_concat:
  "\<forall>x\<in>set xs. no_leading_argument (G x) \<Longrightarrow>
     probes_of (concat (map G xs)) = concat (map (\<lambda>x. probes_of (G x)) xs)"
proof (induction xs)
  case Nil
  then show ?case by simp
next
  case (Cons x xs)
  then have "no_leading_argument (concat (map G xs))"
    by (intro no_leading_argument_concat) simp
  with Cons show ?case by (simp add: probes_of_append)
qed

lemma probes_of_instrument_instr:
  "probes_of (instrument_instr env cfg i) = instr_probes env cfg i"
proof (cases "eligible env cfg i")
  case True
  then show ?thesis
    by (simp add: instr_probes_def instrument_instr_def eligible_def categories_def
        insert_count_instrs_def count_instrs_probe_def string_find_char del: not_None_eq)
next
  case False
  then show ?thesis by (simp add: instr_probes_def instrument_instr_not_eligible)
qed

lemma probes_of_instrument_instrs:
  "probes_of (instrument_instrs env cfg ctx f) =
     concat (map (instr_probes env cfg) (nvbit_get_instrs env ctx f))"
proof -
  have "probes_of (concat (map (instrument_instr env cfg) js)) =
          concat (map (instr_probes env cfg) js)" for js
    using probes_of_concat [of js "instrument_instr env cfg"]
    by (simp add: no_leading_argument_instrument_instr probes_of_instrument_instr)
  then show ?thesis
    by (simp add: instrument_instrs_def Let_def)
qed

lemma probes_of_requested:
  "probes_of (requested env cfg ctx func s) =
     concat (map (\<lambda>g. concat (map (instr_probes env cfg) (nvbit_get_instrs env ctx g)))
       (new_functions (already_instrumented s) (nvbit_get_related_functions env ctx func @ [func])))"
  unfolding requested_eq
  using probes_of_concat [of _ "instrument_instrs env cfg ctx"]
  by (simp add: no_leading_argument_instrument_instrs probes_of_instrument_instrs)

lemma probe_instr_instr_probes: "p \<in> set (instr_probes env cfg j) \<Longrightarrow> probe_instr p = j"
  by (auto simp: instr_probes_def count_instrs_probe_def split: if_splits)

lemma filter_instr_probes:
  "filter (\<lambda>p. probe_instr p = i) (instr_probes env cfg j) =
     (if j = i then instr_probes env cfg i else [])"
  by (auto simp: filter_empty_conv filter_id_conv dest: probe_instr_instr_probes)

lemma filter_function_probes:
  "distinct js \<Longrightarrow>
     filter (\<lambda>p. probe_instr p = i) (concat (map (instr_probes env cfg) js)) =
       (if i \<in> set js then instr_probes env cfg i else [])"
  using filter_concat_distinct [of js i "\<lambda>p. probe_instr p = i" "instr_probes env cfg"]
  by (simp add: filter_instr_probes)

lemma distinct_categories: "distinct (categories env i @ [Instr_counter])"
  by (simp add: categories_def)

lemma length_categories: "length (categories env i @ [Instr_counter]) \<le> 3"
  by (simp add: categories_def)

lemma count_instrs_probe_inj:
  "count_instrs_probe cfg i c = count_instrs_probe cfg j c' \<longleftrightarrow> i = j \<and> c = c'"
  by (auto simp: count_instrs_probe_def)

section \<open>The event handler, branch by branch\<close>

lemma nvbit_at_cuda_event_kernel_id:
  "nvbit_at_cuda_event env cfg ok ctx is_exit cbid func s = Inr s' \<Longrightarrow> kernel_id s' = kernel_id s"
  unfolding nvbit_at_cuda_event_def Let_def
  by (auto split: if_splits)

lemma do_step_kernel_id: "do_step env cfg e s = Inr s' \<Longrightarrow> kernel_id s' = kernel_id s"
  by (cases e) (auto dest: nvbit_at_cuda_event_kernel_id)

lemma run_kernel_id: "run env cfg es s = Inr s' \<Longrightarrow> kernel_id s' = kernel_id s"
proof (induction es arbitrary: s)
  case Nil
  then show ?case by simp
next
  case (Cons e es)
  then show ?case by (auto split: sum.splits dest: do_step_kernel_id)
qed

lemma cooperative_event:
  "is_cooperative_launch cbid \<Longrightarrow>
     nvbit_at_cuda_event env cfg sync_ok ctx is_exit cbid func s =
       Inr (if is_exit \<noteq> 0 then s\<lparr>total_cg := total_cg s + 1\<rparr> else s)"
  unfolding nvbit_at_cuda_event_def is_cooperative_launch_def by auto

lemma cooperative_or_device_step:
  "cooperative_or_device e \<Longrightarrow>
     \<exists>s'. do_step env cfg e s = Inr s' \<and> totals s' = totals s \<and>
          total_cg s' = total_cg s + (if exit_event e then 1 else 0)"
  by (cases e) (auto simp: cooperative_event totals_def)

lemma profiler_signal_ignored:
  "active_from_start cfg \<noteq> 0 \<Longrightarrow> profiler_signal e \<Longrightarrow> do_step env cfg e s = Inr s"
  by (cases e) (auto simp: nvbit_at_cuda_event_def)

lemma run_filter_profiler:
  "active_from_start cfg \<noteq> 0 \<Longrightarrow>
     run env cfg steps s = run env cfg (filter (\<lambda>e. \<not> profiler_signal e) steps) s"
proof (induction steps arbitrary: s)
  case Nil
  then show ?case by simp
next
  case (Cons e es)
  then show ?case
    by (cases "profiler_signal e") (auto simp: profiler_signal_ignored split: sum.splits)
qed

lemma instrument_instr_grid [simp]:
  "instrument_instr env (cfg\<lparr>start_grid_num := a, end_grid_num := b\<rparr>) = instrument_instr env cfg"
  by (intro ext) (simp add: instrument_instr_def insert_count_instrs_def)

lemma instrument_instrs_grid [simp]:
  "instrument_instrs env (cfg\<lparr>start_grid_num := a, end_grid_num := b\<rparr>) = instrument_instrs env cfg"
  by (intro ext) (simp add: instrument_instrs_def)

lemma instrument_function_grid [simp]:
  "instrument_function env (cfg\<lparr>start_grid_num := a, end_grid_num := b\<rparr>) = instrument_function env cfg"
  by (intro ext) (simp add: instrument_function_def)

lemma instrument_function_if_needed_grid [simp]:
  "instrument_function_if_needed env (cfg\<lparr>start_grid_num := a, end_grid_num := b\<rparr>)
     = instrument_function_if_needed env cfg"
  by (intro ext) (simp add: instrument_function_if_needed_def)

lemma do_step_grid:
  "active_from_start cfg = 0 \<Longrightarrow>
     do_step env (cfg\<lparr>start_grid_num := a, end_grid_num := b\<rparr>) e s = do_step env cfg e s"
proof (cases e)
  case (Cuda_event sync_ok ctx is_exit cbid func)
  assume "active_from_start cfg = 0"
  then show ?thesis unfolding Cuda_event do_step.simps nvbit_at_cuda_event_def Let_def
    by (simp cong: if_cong)
next
  case (Device_probes a b c d)
  then show ?thesis by simp
qed

lemma run_grid:
  "active_from_start cfg = 0 \<Longrightarrow>
     run env (cfg\<lparr>start_grid_num := a, end_grid_num := b\<rparr>) steps s = run env cfg steps s"
  by (induction steps arbitrary: s) (simp_all add: do_step_grid split: sum.splits)

section \<open>The small program, evaluated\<close>

lemma demo_related [simp]:
  "nvbit_get_related_functions demo_nvbit ctx f =
     (if f = 1 then [2, 3] else if f = 2 then [3] else [])"
  by (simp add: demo_nvbit_def)

lemma demo_instrs [simp]:
  "nvbit_get_instrs demo_nvbit ctx f =
     (if f = 1 then [10, 11] else if f = 2 then [20] else if f = 3 then [30] else [])"
  by (simp add: demo_nvbit_def)

lemma demo_transitive: "transitive_related demo_nvbit ctx"
  by (simp add: transitive_related_def)

lemma demo_state_set: "already_instrumented demo_state = {1, 2, 3}"
  unfolding demo_state_def invocation_set
  by (auto simp: nvbit_at_init_def)

section \<open>The claims\<close>

subsection \<open>The kernel sequence index\<close>

text \<open>
  C1. The claim: every non-cooperative launch entry increments the kernel sequence index,
  so after \<open>n\<close> entries it is \<open>n\<close> and the active-region decision of launch \<open>n\<close> is
  taken from \<open>n\<close>. The code never writes \<^verbatim>\<open>kernel_id\<close>: its only increment sits in a
  \<^verbatim>\<open>printf\<close> that is commented out. With \<^verbatim>\<open>END_GRID_NUM=1\<close>, after two complete launches
  of kernel 1 the index is still 0 and both launches were enabled, the second one too,
  whose ordinal 1 is outside the interval.
\<close>

theorem kernel_id_never_incremented:
  "map_sum id (\<lambda>s. (kernel_id s, enable_decisions (trace s)))
     (run demo_nvbit (default_config\<lparr>end_grid_num := 1\<rparr>)
        [Cuda_event True 0 0 API_CUDA_cuLaunchKernel 1, Cuda_event True 0 1 API_CUDA_cuLaunchKernel 1,
         Cuda_event True 0 0 API_CUDA_cuLaunchKernel 1, Cuda_event True 0 1 API_CUDA_cuLaunchKernel 1]
        (nvbit_at_init (default_config\<lparr>end_grid_num := 1\<rparr>)))
   = Inr (0, [True, True])"
  by code_simp

subsection \<open>Exactly-once instrumentation\<close>

text \<open>
  C2. Let instruction \<open>i\<close> belong to function \<open>f\<close> only. However often a sequence of
  invocations meets \<open>f\<close>, directly or as a related function, the requests it makes for
  \<open>i\<close> are those of a single invocation with \<open>f\<close>; and once \<open>f\<close> is in the
  instrumented set, no invocation requests anything for \<open>i\<close>, and \<open>f\<close> stays in the set.
\<close>

theorem instrumented_exactly_once:
  assumes "\<forall>g. g \<noteq> f \<longrightarrow> i \<notin> set (nvbit_get_instrs env ctx g)"
  shows "(f \<in> set (visited env ctx funcs) \<and> f \<notin> already_instrumented s \<longrightarrow>
            calls_for i (trace (instrument_all env cfg ctx funcs s)) =
            calls_for i (trace (instrument_function_if_needed env cfg ctx f s))) \<and>
         (f \<in> already_instrumented s \<longrightarrow>
            calls_for i (trace (instrument_all env cfg ctx funcs s)) = calls_for i (trace s) \<and>
            f \<in> already_instrumented (instrument_all env cfg ctx funcs s))"
proof -
  have multi: "calls_for i (trace (instrument_all env cfg ctx funcs s)) =
      calls_for i (trace s) @
      (if f \<in> set (visited env ctx funcs) \<and> f \<notin> already_instrumented s
       then calls_for i (instrument_instrs env cfg ctx f) else [])"
    by (rule calls_for_instrument_all [OF assms])
  have single: "calls_for i (trace (instrument_function_if_needed env cfg ctx f s)) =
      calls_for i (trace s) @
      (if f \<notin> already_instrumented s then calls_for i (instrument_instrs env cfg ctx f) else [])"
    using calls_for_invocation [OF assms, of cfg f s] by simp
  have kept: "f \<in> already_instrumented s \<Longrightarrow>
      f \<in> already_instrumented (instrument_all env cfg ctx funcs s)"
    by (simp add: instrument_all_set)
  show ?thesis using multi single kept by simp
qed

theorem instrumented_exactly_once_witness:
  "calls_for 10 (trace (instrument_all demo_nvbit default_config 0 [1, 2, 1]
                          (nvbit_at_init default_config))) =
     insert_count_instrs default_config 10 Indirect_counter @
     insert_count_instrs default_config 10 Instr_counter \<and>
   calls_for 10 (trace (instrument_function_if_needed demo_nvbit default_config 0 1
                          (nvbit_at_init default_config))) =
     insert_count_instrs default_config 10 Indirect_counter @
     insert_count_instrs default_config 10 Instr_counter \<and>
   1 \<in> already_instrumented demo_state \<and>
   calls_for 10 (trace (instrument_all demo_nvbit default_config 0 [1, 2, 1] demo_state)) =
     calls_for 10 (trace demo_state)"
proof -
  have own: "\<forall>g. g \<noteq> 1 \<longrightarrow> 10 \<notin> set (nvbit_get_instrs demo_nvbit 0 g)"
    by simp
  have met: "1 \<in> set (visited demo_nvbit 0 [1, 2, 1])"
    by (simp add: visited_def)
  have fresh: "1 \<notin> already_instrumented (nvbit_at_init default_config)"
    by (simp add: nvbit_at_init_def)
  have recorded: "1 \<in> already_instrumented demo_state"
    by (simp add: demo_state_set)
  have single: "calls_for 10 (trace (instrument_function_if_needed demo_nvbit default_config 0 1
                          (nvbit_at_init default_config))) =
     insert_count_instrs default_config 10 Indirect_counter @
     insert_count_instrs default_config 10 Instr_counter"
    by code_simp
  show ?thesis
    using instrumented_exactly_once [OF own, of "[1, 2, 1]" "nvbit_at_init default_config" default_config]
      instrumented_exactly_once [OF own, of "[1, 2, 1]" demo_state default_config]
      met fresh recorded single
    by simp
qed

subsection \<open>Eligibility\<close>

text \<open>
  C3. The instructions before which an invocation of the instrumentor inserts a call are
  the eligible instructions (\<open>instr_begin \<le> index < instr_end\<close>) of the functions it
  newly records, and no others: the probed instructions of the trace after the invocation
  are those before it and these. So an instruction of a newly recorded function is probed
  exactly when it is eligible. When the interval is empty (\<open>instr_end \<le> instr_begin\<close>) no
  instruction is eligible, the invocation makes no code-patching request at all, and it
  still returns, having recorded the related functions and the function itself.
\<close>

theorem probed_iff_eligible:
  "set (probed (trace (instrument_function_if_needed env cfg ctx func s))) =
     set (probed (trace s)) \<union>
     (\<Union>g\<in>already_instrumented (instrument_function_if_needed env cfg ctx func s)
           - already_instrumented s.
        {j \<in> set (nvbit_get_instrs env ctx g). eligible env cfg j}) \<and>
   (f \<notin> already_instrumented s \<and>
    f \<in> already_instrumented (instrument_function_if_needed env cfg ctx func s) \<and>
    i \<in> set (nvbit_get_instrs env ctx f) \<longrightarrow>
      (i \<in> set (probed (requested env cfg ctx func s)) \<longleftrightarrow>
       instr_begin_interval cfg \<le> getIdx env i \<and> getIdx env i < instr_end_interval cfg)) \<and>
   (instr_end_interval cfg \<le> instr_begin_interval cfg \<longrightarrow>
      \<not> eligible env cfg i \<and>
      patch_requests (requested env cfg ctx func s) = [] \<and>
      patch_requests (trace (instrument_function_if_needed env cfg ctx func s)) =
        patch_requests (trace s) \<and>
      already_instrumented (instrument_function_if_needed env cfg ctx func s) =
        already_instrumented s \<union> set (nvbit_get_related_functions env ctx func) \<union> {func})"
proof -
  have tr: "trace (instrument_function_if_needed env cfg ctx func s) =
      trace s @ requested env cfg ctx func s"
    by (simp add: invocation_trace requested_eq)
  have 1: "set (probed (trace (instrument_function_if_needed env cfg ctx func s))) =
     set (probed (trace s)) \<union>
     (\<Union>g\<in>already_instrumented (instrument_function_if_needed env cfg ctx func s)
           - already_instrumented s.
        {j \<in> set (nvbit_get_instrs env ctx g). eligible env cfg j})"
    unfolding tr probed_append set_append probed_requested ..
  have 2: "i \<in> set (probed (requested env cfg ctx func s)) \<longleftrightarrow>
       instr_begin_interval cfg \<le> getIdx env i \<and> getIdx env i < instr_end_interval cfg"
    if "f \<notin> already_instrumented s"
      "f \<in> already_instrumented (instrument_function_if_needed env cfg ctx func s)"
      "i \<in> set (nvbit_get_instrs env ctx f)"
    using that unfolding probed_requested by (auto simp: eligible_def)
  have 3: "patch_requests (trace (instrument_function_if_needed env cfg ctx func s)) =
        patch_requests (trace s)"
    if "instr_end_interval cfg \<le> instr_begin_interval cfg"
    unfolding tr by (simp add: patch_requests_requested_empty_interval [OF that])
  show ?thesis
    using 1 2 3 invocation_set [of env cfg ctx func s]
      empty_interval_not_eligible [of cfg env i]
      patch_requests_requested_empty_interval [of cfg env ctx func s]
    by blast
qed

text \<open>
  With \<^verbatim>\<open>INSTR_BEGIN=1\<close>, instrumenting kernel 1 probes instruction 11 (index 1) and not
  instruction 10 (index 0); with the empty interval from 5 to 3 it requests nothing.
\<close>

theorem probed_iff_eligible_witness:
  "1 \<notin> already_instrumented (nvbit_at_init (default_config\<lparr>instr_begin_interval := 1\<rparr>)) \<and>
   1 \<in> already_instrumented (instrument_function_if_needed demo_nvbit
          (default_config\<lparr>instr_begin_interval := 1\<rparr>) 0 1
          (nvbit_at_init (default_config\<lparr>instr_begin_interval := 1\<rparr>))) \<and>
   11 \<in> set (probed (requested demo_nvbit (default_config\<lparr>instr_begin_interval := 1\<rparr>) 0 1
                (nvbit_at_init (default_config\<lparr>instr_begin_interval := 1\<rparr>)))) \<and>
   10 \<notin> set (probed (requested demo_nvbit (default_config\<lparr>instr_begin_interval := 1\<rparr>) 0 1
                (nvbit_at_init (default_config\<lparr>instr_begin_interval := 1\<rparr>)))) \<and>
   instr_end_interval (default_config\<lparr>instr_begin_interval := 5, instr_end_interval := 3\<rparr>)
     \<le> instr_begin_interval (default_config\<lparr>instr_begin_interval := 5, instr_end_interval := 3\<rparr>) \<and>
   patch_requests
     (trace (instrument_function_if_needed demo_nvbit
        (default_config\<lparr>instr_begin_interval := 5, instr_end_interval := 3\<rparr>) 0 1
        (nvbit_at_init (default_config\<lparr>instr_begin_interval := 5, instr_end_interval := 3\<rparr>)))) = [] \<and>
   already_instrumented (instrument_function_if_needed demo_nvbit
        (default_config\<lparr>instr_begin_interval := 5, instr_end_interval := 3\<rparr>) 0 1
        (nvbit_at_init (default_config\<lparr>instr_begin_interval := 5, instr_end_interval := 3\<rparr>))) = {1, 2, 3}"
proof -
  have fresh: "1 \<notin> already_instrumented (nvbit_at_init (default_config\<lparr>instr_begin_interval := 1\<rparr>))"
    by (simp add: nvbit_at_init_def)
  have new: "1 \<in> already_instrumented (instrument_function_if_needed demo_nvbit
          (default_config\<lparr>instr_begin_interval := 1\<rparr>) 0 1
          (nvbit_at_init (default_config\<lparr>instr_begin_interval := 1\<rparr>)))"
    by (simp add: invocation_set)
  have own: "10 \<in> set (nvbit_get_instrs demo_nvbit 0 1)" "11 \<in> set (nvbit_get_instrs demo_nvbit 0 1)"
    by simp_all
  have idx: "getIdx demo_nvbit 10 = 0" "getIdx demo_nvbit 11 = 1"
    by (simp_all add: demo_nvbit_def)
  have empty: "instr_end_interval (default_config\<lparr>instr_begin_interval := 5, instr_end_interval := 3\<rparr>)
     \<le> instr_begin_interval (default_config\<lparr>instr_begin_interval := 5, instr_end_interval := 3\<rparr>)"
    by simp
  have in11: "11 \<in> set (probed (requested demo_nvbit (default_config\<lparr>instr_begin_interval := 1\<rparr>) 0 1
                (nvbit_at_init (default_config\<lparr>instr_begin_interval := 1\<rparr>))))"
    using fresh new own(2)
      probed_iff_eligible [where f = 1 and i = 11 and env = demo_nvbit and ctx = 0 and func = 1
        and cfg = "default_config\<lparr>instr_begin_interval := 1\<rparr>"
        and s = "nvbit_at_init (default_config\<lparr>instr_begin_interval := 1\<rparr>)"]
    by (simp add: idx default_config_def)
  have out10: "10 \<notin> set (probed (requested demo_nvbit (default_config\<lparr>instr_begin_interval := 1\<rparr>) 0 1
                (nvbit_at_init (default_config\<lparr>instr_begin_interval := 1\<rparr>))))"
    using fresh new own(1)
      probed_iff_eligible [where f = 1 and i = 10 and env = demo_nvbit and ctx = 0 and func = 1
        and cfg = "default_config\<lparr>instr_begin_interval := 1\<rparr>"
        and s = "nvbit_at_init (default_config\<lparr>instr_begin_interval := 1\<rparr>)"]
    by (simp add: idx default_config_def)
  have none: "patch_requests
     (trace (instrument_function_if_needed demo_nvbit
        (default_config\<lparr>instr_begin_interval := 5, instr_end_interval := 3\<rparr>) 0 1
        (nvbit_at_init (default_config\<lparr>instr_begin_interval := 5, instr_end_interval := 3\<rparr>)))) = [] \<and>
   already_instrumented (instrument_function_if_needed demo_nvbit
        (default_config\<lparr>instr_begin_interval := 5, instr_end_interval := 3\<rparr>) 0 1
        (nvbit_at_init (default_config\<lparr>instr_begin_interval := 5, instr_end_interval := 3\<rparr>))) = {1, 2, 3}"
    using empty probed_iff_eligible [where i = 10 and env = demo_nvbit and ctx = 0 and func = 1
        and cfg = "default_config\<lparr>instr_begin_interval := 5, instr_end_interval := 3\<rparr>"
        and s = "nvbit_at_init (default_config\<lparr>instr_begin_interval := 5, instr_end_interval := 3\<rparr>)"]
    by (auto simp: nvbit_at_init_def patch_requests_def)
  show ?thesis
    using fresh new in11 out10 empty none by blast
qed

subsection \<open>A function that is already recorded\<close>

text \<open>
  C4, as stated: an invocation with a function that is already in the instrumented set
  skips the whole body, the discovery of its related functions included, so that related
  functions are resolved on the first encounter of their parent only. They are resolved
  on every encounter: the lookup is the first statement of the instrumentor, before the
  set is consulted. Launching kernel 1 of the small program a second time asks NVBit for
  its related functions again.
\<close>

theorem recorded_function_looked_up_again:
  "1 \<in> already_instrumented demo_state \<and>
   requested demo_nvbit default_config 0 1 demo_state = [Nvbit_get_related_functions 0 1] \<and>
   trace (instrument_function_if_needed demo_nvbit default_config 0 1 demo_state) =
     trace demo_state @ [Nvbit_get_related_functions 0 1] \<and>
   instrument_function_if_needed demo_nvbit default_config 0 1 demo_state \<noteq> demo_state"
proof -
  have rec: "1 \<in> already_instrumented demo_state"
    by (simp add: demo_state_set)
  have rel: "set (nvbit_get_related_functions demo_nvbit 0 1) \<subseteq> already_instrumented demo_state"
    by (simp add: demo_state_set)
  have eq: "instrument_function_if_needed demo_nvbit default_config 0 1 demo_state =
      demo_state\<lparr>trace := trace demo_state @ [Nvbit_get_related_functions 0 1]\<rparr>"
    by (rule recorded_and_closed [OF rec rel])
  have tr: "trace (instrument_function_if_needed demo_nvbit default_config 0 1 demo_state) =
     trace demo_state @ [Nvbit_get_related_functions 0 1]"
    unfolding eq by simp
  then have req: "requested demo_nvbit default_config 0 1 demo_state = [Nvbit_get_related_functions 0 1]"
    by (simp add: requested_def)
  have "trace (instrument_function_if_needed demo_nvbit default_config 0 1 demo_state) \<noteq>
      trace demo_state"
    unfolding tr by simp
  then have "instrument_function_if_needed demo_nvbit default_config 0 1 demo_state \<noteq> demo_state"
    by metis
  with rec req tr show ?thesis by simp
qed

text \<open>
  C4, amended: when the function is already in the instrumented set, its own body is
  skipped, and, the related-function list being transitive, all its related functions are
  in the set too and are skipped one by one; but they are resolved again on every
  invocation. In a state reached by invocations of the instrumentor from a closed set of
  recorded functions (the empty set at start-up), an invocation with a recorded function
  adds the lookup of its related functions to the trace and changes nothing else.
\<close>

theorem recorded_function_repeats_lookup_only:
  assumes "transitive_related env ctx"
    and "related_closed env ctx (already_instrumented s0)"
    and "func \<in> already_instrumented (instrument_all env cfg ctx funcs s0)"
  shows "instrument_function_if_needed env cfg ctx func (instrument_all env cfg ctx funcs s0) =
           (instrument_all env cfg ctx funcs s0)
             \<lparr>trace := trace (instrument_all env cfg ctx funcs s0) @
                         [Nvbit_get_related_functions ctx func]\<rparr>"
proof -
  have "related_closed env ctx (already_instrumented (instrument_all env cfg ctx funcs s0))"
    by (rule related_closed_instrument_all [OF assms(1,2)])
  with assms(3)
  have "set (nvbit_get_related_functions env ctx func)
          \<subseteq> already_instrumented (instrument_all env cfg ctx funcs s0)"
    unfolding related_closed_def by blast
  with assms(3) show ?thesis by (rule recorded_and_closed)
qed

theorem recorded_function_repeats_lookup_only_witness:
  "transitive_related demo_nvbit 0 \<and>
   related_closed demo_nvbit 0 (already_instrumented (nvbit_at_init default_config)) \<and>
   1 \<in> already_instrumented (instrument_all demo_nvbit default_config 0 [1] (nvbit_at_init default_config)) \<and>
   instrument_function_if_needed demo_nvbit default_config 0 1
       (instrument_all demo_nvbit default_config 0 [1] (nvbit_at_init default_config)) =
     (instrument_all demo_nvbit default_config 0 [1] (nvbit_at_init default_config))
       \<lparr>trace := trace (instrument_all demo_nvbit default_config 0 [1] (nvbit_at_init default_config)) @
                   [Nvbit_get_related_functions 0 1]\<rparr>"
proof -
  have closed: "related_closed demo_nvbit 0 (already_instrumented (nvbit_at_init default_config))"
    by (simp add: related_closed_def nvbit_at_init_def)
  have rec: "1 \<in> already_instrumented
      (instrument_all demo_nvbit default_config 0 [1] (nvbit_at_init default_config))"
    by (simp add: instrument_all_set visited_def)
  show ?thesis
    using demo_transitive [of 0] closed rec
      recorded_function_repeats_lookup_only [OF demo_transitive closed rec]
    by simp
qed

subsection \<open>The probes of an eligible instruction\<close>

text \<open>
  C5. Let \<open>f\<close> be newly recorded by an invocation of the instrumentor and \<open>i\<close> an
  eligible instruction of \<open>f\<close> (listed once, and of no other function). Read as probes,
  the requests of the invocation that are placed at \<open>i\<close> are one probe per matched
  category followed by the generic one. Each is a call to \<^verbatim>\<open>count_instrs\<close> inserted before
  the instruction whose arguments are, in this order, the guard, the \<^verbatim>\<open>count_warp_level\<close>
  flag and the address of its counter. The counters are pairwise distinct and there are
  at most four probes.
\<close>

theorem probes_of_eligible_instruction:
  assumes "f \<notin> already_instrumented s"
    and "f \<in> already_instrumented (instrument_function_if_needed env cfg ctx func s)"
    and "i \<in> set (nvbit_get_instrs env ctx f)"
    and "distinct (nvbit_get_instrs env ctx f)"
    and "\<forall>g. g \<noteq> f \<longrightarrow> i \<notin> set (nvbit_get_instrs env ctx g)"
    and "eligible env cfg i"
  shows "probes_for i (requested env cfg ctx func s) =
           map (count_instrs_probe cfg i) (categories env i @ [Instr_counter]) \<and>
         distinct (categories env i @ [Instr_counter]) \<and>
         length (probes_for i (requested env cfg ctx func s)) = 1 + length (categories env i) \<and>
         length (probes_for i (requested env cfg ctx func s)) \<le> 4"
proof -
  let ?new = "new_functions (already_instrumented s) (nvbit_get_related_functions env ctx func @ [func])"
  let ?FP = "\<lambda>g. concat (map (instr_probes env cfg) (nvbit_get_instrs env ctx g))"
  have new: "f \<in> set ?new"
    using assms(1,2)
      newly_recorded [where env = env and cfg = cfg and ctx = ctx and func = func and s = s]
    by blast
  have other: "\<forall>g\<in>set ?new. g \<noteq> f \<longrightarrow> filter (\<lambda>p. probe_instr p = i) (?FP g) = []"
    using assms(5) by (auto simp: filter_empty_conv dest: probe_instr_instr_probes)
  have "probes_for i (requested env cfg ctx func s) = filter (\<lambda>p. probe_instr p = i) (?FP f)"
    unfolding probes_for_def probes_of_requested
    using filter_concat_distinct [OF new_functions_distinct other] new by simp
  also have "\<dots> = instr_probes env cfg i"
    using assms(3,4) by (simp add: filter_function_probes)
  also have "\<dots> = map (count_instrs_probe cfg i) (categories env i @ [Instr_counter])"
    using assms(6) by (simp add: instr_probes_def)
  finally show ?thesis
    using length_categories [of env i] distinct_categories [of env i] by simp
qed

theorem probes_of_eligible_instruction_witness:
  "1 \<notin> already_instrumented (nvbit_at_init default_config) \<and>
   1 \<in> already_instrumented
         (instrument_function_if_needed demo_nvbit default_config 0 1 (nvbit_at_init default_config)) \<and>
   10 \<in> set (nvbit_get_instrs demo_nvbit 0 1) \<and>
   eligible demo_nvbit default_config 10 \<and>
   probes_for 10 (requested demo_nvbit default_config 0 1 (nvbit_at_init default_config)) =
     [\<lparr>probe_instr = 10, probe_func = ''count_instrs'', probe_point = IPOINT_BEFORE,
       probe_args = [Nvbit_add_call_arg_const_val32 10 1, Nvbit_add_call_arg_const_val32 10 1,
                     Nvbit_add_call_arg_const_val64 10 Indirect_counter]\<rparr>,
      \<lparr>probe_instr = 10, probe_func = ''count_instrs'', probe_point = IPOINT_BEFORE,
       probe_args = [Nvbit_add_call_arg_const_val32 10 1, Nvbit_add_call_arg_const_val32 10 1,
                     Nvbit_add_call_arg_const_val64 10 Instr_counter]\<rparr>]"
proof -
  have fresh: "1 \<notin> already_instrumented (nvbit_at_init default_config)"
    by (simp add: nvbit_at_init_def)
  have new: "1 \<in> already_instrumented
         (instrument_function_if_needed demo_nvbit default_config 0 1 (nvbit_at_init default_config))"
    by (simp add: invocation_set)
  have mem: "10 \<in> set (nvbit_get_instrs demo_nvbit 0 1)"
    by simp
  have once: "distinct (nvbit_get_instrs demo_nvbit 0 1)"
    by simp
  have own: "\<forall>g. g \<noteq> 1 \<longrightarrow> 10 \<notin> set (nvbit_get_instrs demo_nvbit 0 g)"
    by simp
  have el: "eligible demo_nvbit default_config 10"
    by (simp add: eligible_def demo_nvbit_def default_config_def)
  have cat: "categories demo_nvbit 10 = [Indirect_counter]"
    by (simp add: categories_def demo_nvbit_def)
  show ?thesis
    using fresh new mem el probes_of_eligible_instruction [OF fresh new mem once own el]
    by (simp add: cat count_instrs_probe_def default_config_def)
qed

text \<open>
  C6. An eligible instruction of a function that an invocation newly records gets the
  probe of the indirect counter from that invocation exactly when its opcode is
  \<^verbatim>\<open>CALL.ABS\<close> and its SASS text contains an \<^verbatim>\<open>R\<close>.
\<close>

theorem indirect_iff_call_abs_and_register:
  assumes "f \<notin> already_instrumented s"
    and "f \<in> already_instrumented (instrument_function_if_needed env cfg ctx func s)"
    and "i \<in> set (nvbit_get_instrs env ctx f)"
    and "eligible env cfg i"
  shows "count_instrs_probe cfg i Indirect_counter \<in> set (probes_of (requested env cfg ctx func s))
           \<longleftrightarrow> getOpcode env i = ''CALL.ABS'' \<and> CHR ''R'' \<in> set (getSass env i)"
proof -
  let ?new = "new_functions (already_instrumented s) (nvbit_get_related_functions env ctx func @ [func])"
  have new: "f \<in> set ?new"
    using assms(1,2)
      newly_recorded [where env = env and cfg = cfg and ctx = ctx and func = func and s = s]
    by blast
  have "count_instrs_probe cfg i Indirect_counter \<in> set (probes_of (requested env cfg ctx func s))
          \<longleftrightarrow> count_instrs_probe cfg i Indirect_counter \<in> set (instr_probes env cfg i)"
  proof
    assume "count_instrs_probe cfg i Indirect_counter \<in> set (probes_of (requested env cfg ctx func s))"
    then obtain j where j: "count_instrs_probe cfg i Indirect_counter \<in> set (instr_probes env cfg j)"
      unfolding probes_of_requested by auto
    from probe_instr_instr_probes [OF this] have "j = i"
      by (simp add: count_instrs_probe_def)
    with j show "count_instrs_probe cfg i Indirect_counter \<in> set (instr_probes env cfg i)"
      by simp
  next
    assume "count_instrs_probe cfg i Indirect_counter \<in> set (instr_probes env cfg i)"
    with new assms(3)
    show "count_instrs_probe cfg i Indirect_counter \<in> set (probes_of (requested env cfg ctx func s))"
      unfolding probes_of_requested by auto
  qed
  also have "\<dots> \<longleftrightarrow> Indirect_counter \<in> set (categories env i @ [Instr_counter])"
    using assms(4) by (auto simp: instr_probes_def count_instrs_probe_inj)
  also have "\<dots> \<longleftrightarrow> getOpcode env i = ''CALL.ABS'' \<and> CHR ''R'' \<in> set (getSass env i)"
    by (simp add: categories_def)
  finally show ?thesis .
qed

text \<open>
  In the first instrumentation of kernel 1, instruction 10 (\<^verbatim>\<open>CALL.ABS\<close> with a register)
  gets the indirect probe, instruction 30 (\<^verbatim>\<open>CALL.ABS\<close> without an \<^verbatim>\<open>R\<close>) and instruction
  20 (an \<^verbatim>\<open>R\<close>, but \<^verbatim>\<open>VOTE.BALL\<close>) do not.
\<close>

theorem indirect_iff_call_abs_and_register_witness:
  "eligible demo_nvbit default_config 10 \<and>
   count_instrs_probe default_config 10 Indirect_counter
     \<in> set (probes_of (requested demo_nvbit default_config 0 1 (nvbit_at_init default_config))) \<and>
   eligible demo_nvbit default_config 30 \<and>
   count_instrs_probe default_config 30 Indirect_counter
     \<notin> set (probes_of (requested demo_nvbit default_config 0 1 (nvbit_at_init default_config))) \<and>
   eligible demo_nvbit default_config 20 \<and>
   count_instrs_probe default_config 20 Indirect_counter
     \<notin> set (probes_of (requested demo_nvbit default_config 0 1 (nvbit_at_init default_config)))"
proof -
  have fresh: "1 \<notin> already_instrumented (nvbit_at_init default_config)"
    "2 \<notin> already_instrumented (nvbit_at_init default_config)"
    "3 \<notin> already_instrumented (nvbit_at_init default_config)"
    by (simp_all add: nvbit_at_init_def)
  have new: "1 \<in> already_instrumented
         (instrument_function_if_needed demo_nvbit default_config 0 1 (nvbit_at_init default_config))"
    "2 \<in> already_instrumented
         (instrument_function_if_needed demo_nvbit default_config 0 1 (nvbit_at_init default_config))"
    "3 \<in> already_instrumented
         (instrument_function_if_needed demo_nvbit default_config 0 1 (nvbit_at_init default_config))"
    by (simp_all add: invocation_set)
  have mem: "10 \<in> set (nvbit_get_instrs demo_nvbit 0 1)" "20 \<in> set (nvbit_get_instrs demo_nvbit 0 2)"
    "30 \<in> set (nvbit_get_instrs demo_nvbit 0 3)"
    by simp_all
  have el: "eligible demo_nvbit default_config 10" "eligible demo_nvbit default_config 20"
    "eligible demo_nvbit default_config 30"
    by (simp_all add: eligible_def demo_nvbit_def default_config_def)
  show ?thesis
    using el
      indirect_iff_call_abs_and_register [OF fresh(1) new(1) mem(1) el(1)]
      indirect_iff_call_abs_and_register [OF fresh(2) new(2) mem(2) el(2)]
      indirect_iff_call_abs_and_register [OF fresh(3) new(3) mem(3) el(3)]
    by (simp add: demo_nvbit_def)
qed

subsection \<open>The two region modes\<close>

text \<open>
  C7. With \<^verbatim>\<open>ACTIVE_FROM_START\<close> set, the profiler start and stop callbacks change
  nothing: an execution and the same execution without them go through the same states,
  so every launch is decided alike. With \<^verbatim>\<open>ACTIVE_FROM_START=0\<close>, the launch interval is
  not read: replacing \<^verbatim>\<open>START_GRID_NUM\<close> and \<^verbatim>\<open>END_GRID_NUM\<close> by any other values gives
  the same execution.
\<close>

theorem region_modes_do_not_interfere:
  "(active_from_start cfg \<noteq> 0 \<longrightarrow>
      (profiler_signal e \<longrightarrow> do_step env cfg e s = Inr s) \<and>
      run env cfg steps s = run env cfg (filter (\<lambda>e. \<not> profiler_signal e) steps) s) \<and>
   (active_from_start cfg = 0 \<longrightarrow>
      run env (cfg\<lparr>start_grid_num := a, end_grid_num := b\<rparr>) steps s = run env cfg steps s)"
  using run_filter_profiler [where cfg = cfg and env = env and steps = steps and s = s]
    run_grid [where cfg = cfg and env = env and a = a and b = b and steps = steps and s = s]
    profiler_signal_ignored [where cfg = cfg and e = e and env = env and s = s]
  by blast

theorem region_modes_do_not_interfere_witness:
  "active_from_start default_config \<noteq> 0 \<and>
   profiler_signal (Cuda_event True 0 1 API_CUDA_cuProfilerStop 0) \<and>
   do_step demo_nvbit default_config (Cuda_event True 0 1 API_CUDA_cuProfilerStop 0) demo_state
     = Inr demo_state \<and>
   run demo_nvbit default_config
     [Cuda_event True 0 1 API_CUDA_cuProfilerStop 0,
      Cuda_event True 0 0 API_CUDA_cuLaunchKernel 1,
      Cuda_event True 0 1 API_CUDA_cuProfilerStart 0,
      Cuda_event True 0 1 API_CUDA_cuLaunchKernel 1] demo_state =
   run demo_nvbit default_config
     [Cuda_event True 0 0 API_CUDA_cuLaunchKernel 1,
      Cuda_event True 0 1 API_CUDA_cuLaunchKernel 1] demo_state \<and>
   active_from_start (default_config\<lparr>active_from_start := 0\<rparr>) = 0 \<and>
   run demo_nvbit (default_config\<lparr>active_from_start := 0, start_grid_num := 5, end_grid_num := 7\<rparr>)
     [Cuda_event True 0 1 API_CUDA_cuProfilerStart 0,
      Cuda_event True 0 0 API_CUDA_cuLaunchKernel 1,
      Cuda_event True 0 1 API_CUDA_cuLaunchKernel 1] demo_state =
   run demo_nvbit (default_config\<lparr>active_from_start := 0\<rparr>)
     [Cuda_event True 0 1 API_CUDA_cuProfilerStart 0,
      Cuda_event True 0 0 API_CUDA_cuLaunchKernel 1,
      Cuda_event True 0 1 API_CUDA_cuLaunchKernel 1] demo_state"
proof -
  have on: "active_from_start default_config \<noteq> 0"
    by (simp add: default_config_def)
  have off: "active_from_start (default_config\<lparr>active_from_start := 0\<rparr>) = 0"
    by simp
  have signal: "profiler_signal (Cuda_event True 0 1 API_CUDA_cuProfilerStop 0)"
    by simp
  have kept: "filter (\<lambda>e. \<not> profiler_signal e)
     [Cuda_event True 0 1 API_CUDA_cuProfilerStop 0,
      Cuda_event True 0 0 API_CUDA_cuLaunchKernel 1,
      Cuda_event True 0 1 API_CUDA_cuProfilerStart 0,
      Cuda_event True 0 1 API_CUDA_cuLaunchKernel 1] =
     [Cuda_event True 0 0 API_CUDA_cuLaunchKernel 1,
      Cuda_event True 0 1 API_CUDA_cuLaunchKernel 1]"
    by simp
  have "do_step demo_nvbit default_config (Cuda_event True 0 1 API_CUDA_cuProfilerStop 0) demo_state
     = Inr demo_state"
    using on signal
      region_modes_do_not_interfere [where cfg = default_config and env = demo_nvbit
        and e = "Cuda_event True 0 1 API_CUDA_cuProfilerStop 0" and s = demo_state]
    by blast
  moreover have "run demo_nvbit default_config
     [Cuda_event True 0 1 API_CUDA_cuProfilerStop 0,
      Cuda_event True 0 0 API_CUDA_cuLaunchKernel 1,
      Cuda_event True 0 1 API_CUDA_cuProfilerStart 0,
      Cuda_event True 0 1 API_CUDA_cuLaunchKernel 1] demo_state =
   run demo_nvbit default_config
     [Cuda_event True 0 0 API_CUDA_cuLaunchKernel 1,
      Cuda_event True 0 1 API_CUDA_cuLaunchKernel 1] demo_state"
    using on
      region_modes_do_not_interfere [where cfg = default_config and env = demo_nvbit
        and s = demo_state and steps = "[Cuda_event True 0 1 API_CUDA_cuProfilerStop 0,
          Cuda_event True 0 0 API_CUDA_cuLaunchKernel 1,
          Cuda_event True 0 1 API_CUDA_cuProfilerStart 0,
          Cuda_event True 0 1 API_CUDA_cuLaunchKernel 1]"]
    unfolding kept by blast
  moreover have "run demo_nvbit
       (default_config\<lparr>active_from_start := 0, start_grid_num := 5, end_grid_num := 7\<rparr>)
     [Cuda_event True 0 1 API_CUDA_cuProfilerStart 0,
      Cuda_event True 0 0 API_CUDA_cuLaunchKernel 1,
      Cuda_event True 0 1 API_CUDA_cuLaunchKernel 1] demo_state =
   run demo_nvbit (default_config\<lparr>active_from_start := 0\<rparr>)
     [Cuda_event True 0 1 API_CUDA_cuProfilerStart 0,
      Cuda_event True 0 0 API_CUDA_cuLaunchKernel 1,
      Cuda_event True 0 1 API_CUDA_cuLaunchKernel 1] demo_state"
    using off
      region_modes_do_not_interfere [where cfg = "default_config\<lparr>active_from_start := 0\<rparr>"
        and env = demo_nvbit and s = demo_state and a = 5 and b = 7
        and steps = "[Cuda_event True 0 1 API_CUDA_cuProfilerStart 0,
          Cuda_event True 0 0 API_CUDA_cuLaunchKernel 1,
          Cuda_event True 0 1 API_CUDA_cuLaunchKernel 1]"]
    by blast
  ultimately show ?thesis
    using on off signal by blast
qed

subsection \<open>Cooperative launches\<close>

text \<open>
  C8. An execution made of cooperative-launch callbacks (and of whatever the device adds
  to the per-kernel counters meanwhile) never fails, leaves the generic, indirect, shuffle
  and ballot totals as they were, and adds to the cooperative-launch total one per exit
  callback.
\<close>

theorem cooperative_launches_only_counted:
  assumes "\<forall>e\<in>set steps. cooperative_or_device e"
  shows "\<exists>s'. run env cfg steps s = Inr s' \<and> totals s' = totals s \<and>
           total_cg s' = total_cg s + of_nat (length (filter exit_event steps))"
  using assms
proof (induction steps arbitrary: s)
  case Nil
  then show ?case by simp
next
  case (Cons e es)
  then obtain s1 where 1: "do_step env cfg e s = Inr s1" "totals s1 = totals s"
     "total_cg s1 = total_cg s + (if exit_event e then 1 else 0)"
    using cooperative_or_device_step [of e env cfg s] by auto
  from Cons obtain s2 where 2: "run env cfg es s1 = Inr s2" "totals s2 = totals s1"
     "total_cg s2 = total_cg s1 + of_nat (length (filter exit_event es))"
    by (metis list.set_intros(2))
  show ?case using 1 2 by simp
qed

text \<open>
  The scenario of the specification: two cooperative launches after start-up, then the
  report. The cooperative-launch total is 2, the four instruction totals are 0.
\<close>

theorem cooperative_launches_only_counted_witness:
  "map_sum id (nvbit_at_term default_config)
     (run demo_nvbit default_config
        [Cuda_event True 0 0 API_CUDA_cuLaunchCooperativeKernel 1,
         Cuda_event True 0 1 API_CUDA_cuLaunchCooperativeKernel 1,
         Cuda_event True 0 0 API_CUDA_cuLaunchCooperativeKernel_ptsz 1,
         Cuda_event True 0 1 API_CUDA_cuLaunchCooperativeKernel_ptsz 1]
        (nvbit_at_init default_config)) =
   Inr [Printf_total ''Total indirect function calls: '' 0,
        Printf_total ''Total cooperative group kernel launches: '' 2,
        Printf_total ''Total instructions (warp level): '' 0,
        Printf_total ''Total __shfl_sync() calls: '' 0,
        Printf_total ''Total __ballot_sync() calls: '' 0]"
proof -
  have coop: "\<forall>e\<in>set [Cuda_event True 0 0 API_CUDA_cuLaunchCooperativeKernel 1,
         Cuda_event True 0 1 API_CUDA_cuLaunchCooperativeKernel 1,
         Cuda_event True 0 0 API_CUDA_cuLaunchCooperativeKernel_ptsz 1,
         Cuda_event True 0 1 API_CUDA_cuLaunchCooperativeKernel_ptsz 1]. cooperative_or_device e"
    by (simp add: is_cooperative_launch_def)
  obtain s' where
    run: "run demo_nvbit default_config
        [Cuda_event True 0 0 API_CUDA_cuLaunchCooperativeKernel 1,
         Cuda_event True 0 1 API_CUDA_cuLaunchCooperativeKernel 1,
         Cuda_event True 0 0 API_CUDA_cuLaunchCooperativeKernel_ptsz 1,
         Cuda_event True 0 1 API_CUDA_cuLaunchCooperativeKernel_ptsz 1]
        (nvbit_at_init default_config) = Inr s'"
    and tot: "totals s' = totals (nvbit_at_init default_config)"
    and cg: "total_cg s' = total_cg (nvbit_at_init default_config) +
        of_nat (length (filter exit_event
          [Cuda_event True 0 0 API_CUDA_cuLaunchCooperativeKernel 1,
           Cuda_event True 0 1 API_CUDA_cuLaunchCooperativeKernel 1,
           Cuda_event True 0 0 API_CUDA_cuLaunchCooperativeKernel_ptsz 1,
           Cuda_event True 0 1 API_CUDA_cuLaunchCooperativeKernel_ptsz 1]))"
    using cooperative_launches_only_counted [OF coop, of demo_nvbit default_config
        "nvbit_at_init default_config"]
    by blast
  from tot have "total_instr s' = 0" "total_indirect s' = 0" "total_shfl s' = 0" "total_ballot s' = 0"
    by (simp_all add: totals_def nvbit_at_init_def)
  moreover from cg have "total_cg s' = 2"
    by (simp add: nvbit_at_init_def)
  ultimately show ?thesis
    unfolding run by (simp add: nvbit_at_term_def default_config_def)
qed

text \<open>
  C10. A cooperative-launch callback returns the state it was given, at exit with the
  cooperative-launch total increased by one. In particular the trace is the same, so the
  mutex is neither locked nor unlocked, nothing is instrumented and the device is not
  synchronised, and the per-kernel counters are not reset; the entry callback changes
  nothing at all.
\<close>

theorem cooperative_event_frame:
  assumes "is_cooperative_launch cbid"
  shows "nvbit_at_cuda_event env cfg sync_ok ctx is_exit cbid func s =
           Inr (if is_exit \<noteq> 0 then s\<lparr>total_cg := total_cg s + 1\<rparr> else s) \<and>
         (\<exists>s'. nvbit_at_cuda_event env cfg sync_ok ctx is_exit cbid func s = Inr s' \<and>
               trace s' = trace s \<and>
               already_instrumented s' = already_instrumented s \<and>
               instr_counter s' = instr_counter s \<and> indirect_counter s' = indirect_counter s \<and>
               shfl_counter s' = shfl_counter s \<and> ballot_counter s' = ballot_counter s \<and>
               totals s' = totals s \<and> active_region s' = active_region s \<and>
               kernel_id s' = kernel_id s)"
  by (simp add: cooperative_event [OF assms] totals_def)

theorem cooperative_event_frame_witness:
  "is_cooperative_launch API_CUDA_cuLaunchCooperativeKernelMultiDevice \<and>
   nvbit_at_cuda_event demo_nvbit default_config False 0 0
     API_CUDA_cuLaunchCooperativeKernelMultiDevice 3 demo_state = Inr demo_state \<and>
   nvbit_at_cuda_event demo_nvbit default_config False 0 1
     API_CUDA_cuLaunchCooperativeKernelMultiDevice 3 demo_state =
     Inr (demo_state\<lparr>total_cg := total_cg demo_state + 1\<rparr>)"
proof -
  have coop: "is_cooperative_launch API_CUDA_cuLaunchCooperativeKernelMultiDevice"
    by (simp add: is_cooperative_launch_def)
  show ?thesis
    using coop
      cooperative_event_frame [OF coop, of demo_nvbit default_config False 0 0 3 demo_state]
      cooperative_event_frame [OF coop, of demo_nvbit default_config False 0 1 3 demo_state]
    by simp
qed

end
